theory Spec2Isabelle
  imports Complex_Main
begin

section \<open>Strings\<close>

text \<open>
  A Python \<open>str\<close> is a sequence of Unicode code points.  The source strips user input
  (which may hold full-width Japanese spaces) and compares Japanese keys, so a string is
  modelled as the list of its code points, not as bytes.
\<close>

type_synonym pystr = "nat list"

definition py :: "string \<Rightarrow> pystr" where
  "py s = map of_char s"

text \<open>
  \<open>str.strip()\<close> with no argument removes leading and trailing whitespace, where
  whitespace is what \<open>str.isspace\<close> accepts for one code point: the code points below.
\<close>

definition isspace :: "nat \<Rightarrow> bool" where
  "isspace c =
     ((0x9 \<le> c \<and> c \<le> 0xD) \<or> (0x1C \<le> c \<and> c \<le> 0x20) \<or> c = 0x85 \<or> c = 0xA0 \<or>
      c = 0x1680 \<or> (0x2000 \<le> c \<and> c \<le> 0x200A) \<or> c = 0x2028 \<or> c = 0x2029 \<or>
      c = 0x202F \<or> c = 0x205F \<or> c = 0x3000)"

definition strip :: "pystr \<Rightarrow> pystr" where
  "strip s = rev (dropWhile isspace (rev (dropWhile isspace s)))"

section \<open>Reference data\<close>

text \<open>
  One record of \<open>data/translations.json\<close>.  The key \<open>"alternatives"\<close> may be missing
  (the source reads it with \<open>entry.get("alternatives", [])\<close>).
\<close>

record translation_entry =
  japanese :: pystr
  english :: pystr
  alternatives :: "pystr list option"

text \<open>
  \<open>japanese_to_entry = {entry["japanese"]: entry for entry in translations}\<close>:
  the comprehension stores the entries one by one, in list order, into an empty dict.
\<close>

definition japanese_to_entry ::
    "translation_entry list \<Rightarrow> (pystr \<rightharpoonup> translation_entry)" where
  "japanese_to_entry translations =
     foldl (\<lambda>d e. d(japanese e \<mapsto> e)) Map.empty translations"

section \<open>Similarity scorer\<close>

text \<open>
  Python floats are modelled as reals: rounding error, infinities and NaN are outside
  the model.  The sentence-embedding model and \<open>util.pytorch_cos_sim\<close> are external
  libraries; they are parameters of the model, a function from a string to its embedding
  and a function from two embeddings to their similarity.
\<close>

record 'v scorer =
  encode :: "pystr \<Rightarrow> 'v"
  pytorch_cos_sim :: "'v \<Rightarrow> 'v \<Rightarrow> real"

datatype error = EmptyTensor

text \<open>
  \<open>Tensor.max()\<close> and \<open>Tensor.argmax()\<close> of a non-empty tensor.  The library documents
  \<open>argmax\<close> as returning the index of the first maximal value when there are several;
  the scan below keeps the earlier index unless a strictly greater value is met.
\<close>

fun argmax_scan :: "real \<Rightarrow> nat \<Rightarrow> nat \<Rightarrow> real list \<Rightarrow> nat" where
  "argmax_scan best bi i [] = bi"
| "argmax_scan best bi i (x # xs) =
     (if best < x then argmax_scan x i (Suc i) xs else argmax_scan best bi (Suc i) xs)"

fun tensor_argmax :: "real list \<Rightarrow> error + nat" where
  "tensor_argmax [] = Inl EmptyTensor"
| "tensor_argmax (x # xs) = Inr (argmax_scan x 0 1 xs)"

fun tensor_max :: "real list \<Rightarrow> error + real" where
  "tensor_max [] = Inl EmptyTensor"
| "tensor_max (x # xs) = Inr (foldl max x xs)"

text \<open>
  \<open>compute_score_and_best(user_text, variants)\<close>.  \<open>embeddings[0]\<close> is the embedding of
  the user's text, \<open>embeddings[1:]\<close> those of the variants; an empty \<open>variants\<close> makes
  \<open>argmax\<close> raise.
\<close>

definition compute_score_and_best ::
    "'v scorer \<Rightarrow> pystr \<Rightarrow> pystr list \<Rightarrow> error + (real \<times> pystr)" where
  "compute_score_and_best model user_text variants =
     (let embeddings = map (encode model) (user_text # variants);
          scores = map (pytorch_cos_sim model (hd embeddings)) (tl embeddings)
      in case tensor_argmax scores of
           Inl e \<Rightarrow> Inl e
         | Inr best_idx \<Rightarrow>
             (case tensor_max scores of
                Inl e \<Rightarrow> Inl e
              | Inr best_score \<Rightarrow> Inr (best_score, variants ! best_idx)))"

section \<open>Number formatting\<close>

text \<open>
  \<open>f"{x:.4f}"\<close> and \<open>f"{x:.2f}"\<close>: fixed-point notation with \<open>prec\<close> digits after the
  point, the value rounded to the nearest multiple of \<open>10 ^ -prec\<close>, halfway cases to the
  even one, and a minus sign for a negative value.
\<close>

fun digits :: "nat \<Rightarrow> pystr" where
  "digits n = (if n < 10 then [48 + n] else digits (n div 10) @ [48 + n mod 10])"

declare digits.simps [simp del]

definition round_half_even :: "real \<Rightarrow> int" where
  "round_half_even y =
     (let f = \<lfloor>y\<rfloor>; d = y - of_int f
      in if d < 1 / 2 then f else if 1 / 2 < d then f + 1 else if even f then f else f + 1)"

definition format_f :: "nat \<Rightarrow> real \<Rightarrow> pystr" where
  "format_f prec x =
     (let n = nat (round_half_even (\<bar>x\<bar> * 10 ^ prec))
      in (if x < 0 then [45] else []) @ digits (n div 10 ^ prec) @ [46] @
         map (\<lambda>k. 48 + n div 10 ^ (prec - Suc k) mod 10) [0..<prec])"

section \<open>Session state and the three button handlers\<close>

definition THRESHOLD :: real where
  "THRESHOLD = 0.80"

record session_state =
  last_score :: "real option"
  last_variant :: "pystr option"
  scores :: "real list"
  attempted_questions :: int

text \<open>The state a new session starts in (the block "Initialize session state").\<close>

definition initial_state :: session_state where
  "initial_state =
     \<lparr>last_score = None, last_variant = None, scores = [], attempted_questions = 0\<rparr>"

text \<open>The widgets' values at the run of the script that handles a click.\<close>

record inputs =
  student_name :: pystr
  student_number :: pystr
  entry :: translation_entry
  user_input :: pystr

text \<open>
  What the page shows: one constructor for each \<open>st.warning\<close>, \<open>st.success\<close>,
  \<open>st.error\<close> and \<open>st.markdown\<close> call of the handlers, with the formatted number it
  interpolates.  \<open>Uncaught\<close> is an exception that leaves the handler.
\<close>

datatype message =
    Warning_enter_translation_try
  | Markdown_attempted int
  | Success_good_enough pystr
  | Warning_not_quite pystr
  | Warning_enter_identity_submit
  | Warning_enter_translation_submit
  | Success_recorded pystr
  | Warning_enter_identity_finish
  | Warning_no_scores
  | Error_sheet_unavailable
  | Success_finished pystr
  | Error_save_failed
  | Uncaught error

definition all_variants :: "translation_entry \<Rightarrow> pystr list" where
  "all_variants e = [english e] @ (case alternatives e of None \<Rightarrow> [] | Some alts \<Rightarrow> alts)"

definition try_translation ::
    "'v scorer \<Rightarrow> inputs \<Rightarrow> session_state \<Rightarrow> session_state \<times> message list" where
  "try_translation model inp st =
     (if strip (user_input inp) = [] then (st, [Warning_enter_translation_try])
      else
        case compute_score_and_best model (user_input inp) (all_variants (entry inp)) of
          Inl e \<Rightarrow> (st, [Uncaught e])
        | Inr (best_score, best_variant) \<Rightarrow>
            let st1 = st\<lparr>last_score := Some best_score\<rparr>;
                st2 = st1\<lparr>last_variant := Some best_variant\<rparr>;
                st3 = st2\<lparr>attempted_questions := attempted_questions st2 + 1\<rparr>
            in (st3,
                [Markdown_attempted (attempted_questions st3),
                 if THRESHOLD \<le> best_score then Success_good_enough (format_f 2 best_score)
                 else Warning_not_quite (format_f 2 best_score)]))"

definition submit_translation ::
    "'v scorer \<Rightarrow> inputs \<Rightarrow> session_state \<Rightarrow> session_state \<times> message list" where
  "submit_translation model inp st =
     (if strip (student_name inp) = [] \<or> strip (student_number inp) = []
      then (st, [Warning_enter_identity_submit])
      else if strip (user_input inp) = [] then (st, [Warning_enter_translation_submit])
      else
        case (case last_score st of
                None \<Rightarrow>
                  (case compute_score_and_best model (user_input inp)
                          (all_variants (entry inp)) of
                     Inl e \<Rightarrow> Inl e
                   | Inr (best_score, best_variant) \<Rightarrow> Inr best_score)
              | Some cached \<Rightarrow> Inr cached) of
          Inl e \<Rightarrow> (st, [Uncaught e])
        | Inr best_score \<Rightarrow>
            let st1 = st\<lparr>scores := scores st @ [best_score]\<rparr>;
                st2 = st1\<lparr>last_score := None\<rparr>;
                st3 = st2\<lparr>last_variant := None\<rparr>
            in (st3, [Success_recorded (format_f 2 best_score)]))"

subsection \<open>The spreadsheet\<close>

text \<open>
  The spreadsheet is the list of its rows; a row is a list of cells.  Whether the sheet
  object exists (\<open>sheet is None\<close> otherwise), whether this call of \<open>append_row\<close> raises,
  and the clock's reading are given from outside.
\<close>

datatype cell = CellStr pystr | CellInt int

type_synonym row = "cell list"

record io =
  sheet_present :: bool
  append_raises :: bool
  now :: pystr

datatype api_error = APIError

definition append_row :: "io \<Rightarrow> row \<Rightarrow> row list \<Rightarrow> api_error + row list" where
  "append_row w r rows = (if append_raises w then Inl APIError else Inr (rows @ [r]))"

definition finish_session ::
    "io \<Rightarrow> inputs \<Rightarrow> session_state \<times> row list \<Rightarrow>
     (session_state \<times> row list) \<times> message list" where
  "finish_session w inp a =
     (let st = fst a; rows = snd a
      in if strip (student_name inp) = [] \<or> strip (student_number inp) = []
         then (a, [Warning_enter_identity_finish])
         else if scores st = [] then (a, [Warning_no_scores])
         else
           let average_score = sum_list (scores st) / real (length (scores st));
               number_of_questions = int (length (scores st))
           in if \<not> sheet_present w then (a, [Error_sheet_unavailable])
              else
                case append_row w
                       [CellStr (now w), CellStr (student_name inp), CellStr (student_number inp),
                        CellStr (format_f 4 average_score),
                        CellStr (if THRESHOLD \<le> average_score then py ''Pass'' else py ''Fail''),
                        CellInt number_of_questions] rows of
                  Inl e \<Rightarrow> (a, [Error_save_failed])
                | Inr rows' \<Rightarrow>
                    let st1 = st\<lparr>scores := []\<rparr>;
                        st2 = st1\<lparr>attempted_questions := 0\<rparr>
                    in ((st2, rows'), [Success_finished (format_f 2 average_score)]))"

subsection \<open>Events and runs\<close>

text \<open>
  A click reruns the script with exactly one button pressed.  An event is the button
  together with the widgets' values (and, for the last button, the outside world).
\<close>

datatype event = Try inputs | Submit inputs | Finish io inputs

definition step ::
    "'v scorer \<Rightarrow> session_state \<times> row list \<Rightarrow> event \<Rightarrow>
     (session_state \<times> row list) \<times> message list" where
  "step model a ev =
     (case ev of
        Try inp \<Rightarrow> (let r = try_translation model inp (fst a) in ((fst r, snd a), snd r))
      | Submit inp \<Rightarrow> (let r = submit_translation model inp (fst a) in ((fst r, snd a), snd r))
      | Finish w inp \<Rightarrow> finish_session w inp a)"

text \<open>
  A run handles the events one after the other.  Beside the state and the spreadsheet
  it keeps the log of the current session: every event handled since the session began,
  paired with the session state it was handled in.  A session ends, and the next one
  begins with an empty log, when a row is added to the spreadsheet.
\<close>

type_synonym session_log = "(session_state \<times> event) list"

fun run_session ::
    "'v scorer \<Rightarrow> (session_state \<times> row list) \<times> session_log \<Rightarrow> event list \<Rightarrow>
     (session_state \<times> row list) \<times> session_log" where
  "run_session model (a, hist) [] = (a, hist)"
| "run_session model (a, hist) (ev # evs) =
     (let a' = fst (step model a ev)
      in run_session model (a', if snd a' = snd a then hist @ [(fst a, ev)] else []) evs)"

text \<open>A run of a new session: it starts in the initial state, with an empty log.\<close>

definition run_from_start ::
    "'v scorer \<Rightarrow> row list \<Rightarrow> event list \<Rightarrow> (session_state \<times> row list) \<times> session_log" where
  "run_from_start model rows0 evs = run_session model ((initial_state, rows0), []) evs"

subsection \<open>Observations on states and logs\<close>

text \<open>
  The two states of the session state machine: \<open>Scored\<close> when a score of an earlier
  "try" is cached in \<open>last_score\<close>, \<open>Idle\<close> otherwise.
\<close>

datatype phase = Idle | Scored

definition phase_of :: "session_state \<Rightarrow> phase" where
  "phase_of st = (case last_score st of None \<Rightarrow> Idle | Some s \<Rightarrow> Scored)"

definition is_try :: "event \<Rightarrow> bool" where
  "is_try ev = (case ev of Try inp \<Rightarrow> True | Submit inp \<Rightarrow> False | Finish w inp \<Rightarrow> False)"

definition is_submit :: "event \<Rightarrow> bool" where
  "is_submit ev = (case ev of Try inp \<Rightarrow> False | Submit inp \<Rightarrow> True | Finish w inp \<Rightarrow> False)"

definition is_nonblank_try :: "event \<Rightarrow> bool" where
  "is_nonblank_try ev =
     (case ev of Try inp \<Rightarrow> strip (user_input inp) \<noteq> [] | Submit inp \<Rightarrow> False
      | Finish w inp \<Rightarrow> False)"

text \<open>
  The values one logged event added at the end of \<open>scores\<close>: what a "submit" left
  behind the scores it found; nothing for the other buttons.
\<close>

definition appended_values :: "'v scorer \<Rightarrow> session_state \<times> event \<Rightarrow> real list" where
  "appended_values model p =
     (case snd p of
        Try inp \<Rightarrow> []
      | Submit inp \<Rightarrow>
          drop (length (scores (fst p))) (scores (fst (submit_translation model inp (fst p))))
      | Finish w inp \<Rightarrow> [])"

definition submitted_values :: "'v scorer \<Rightarrow> session_log \<Rightarrow> real list" where
  "submitted_values model hist = concat (map (appended_values model) hist)"



subsection \<open>Sample data\<close>

text \<open>
  A small scorer for concrete runs: the embedding of a string is its length, and two
  embeddings are the more similar the closer the lengths.
\<close>

definition length_scorer :: "nat scorer" where
  "length_scorer =
     \<lparr>encode = length,
      pytorch_cos_sim = (\<lambda>a b. 1 / real (1 + (a - b) + (b - a)))\<rparr>"

definition rice_entry :: translation_entry where
  "rice_entry =
     \<lparr>japanese = [0x3054, 0x98EF], english = py ''I eat rice'',
      alternatives = Some [py ''I am eating rice'', py ''I ate rice'']\<rparr>"

definition rice_inputs :: inputs where
  "rice_inputs =
     \<lparr>student_name = py ''Aiko'', student_number = py ''42'', entry = rice_entry,
      user_input = py ''I eat rice''\<rparr>"

definition rice_variants :: "pystr list" where
  "rice_variants = [py ''I am eating rice'', py ''I ate rice'', py ''I eat rice'']"

definition sheet_ok :: io where
  "sheet_ok = \<lparr>sheet_present = True, append_raises = False, now = py ''2024-01-01 09:00:00''\<rparr>"

definition blank :: pystr where
  "blank = [32, 0x3000, 9]"

definition cached_state :: session_state where
  "cached_state =
     \<lparr>last_score = Some (1 / 4), last_variant = Some (py ''I am eating rice''),
      scores = [1 / 2], attempted_questions = 1\<rparr>"

definition three_scores_state :: session_state where
  "three_scores_state = initial_state\<lparr>scores := [9 / 10, 1 / 2, 7 / 10]\<rparr>"

definition sheet_missing :: io where
  "sheet_missing = sheet_ok\<lparr>sheet_present := False\<rparr>"

definition sheet_failing :: io where
  "sheet_failing = sheet_ok\<lparr>append_raises := True\<rparr>"

definition rice_entry_old :: translation_entry where
  "rice_entry_old =
     \<lparr>japanese = [0x3054, 0x98EF], english = py ''I eat a meal'', alternatives = None\<rparr>"

definition tea_entry :: translation_entry where
  "tea_entry = \<lparr>japanese = [0x304A, 0x8336], english = py ''tea'', alternatives = Some []\<rparr>"

definition later_inputs :: inputs where
  "later_inputs = rice_inputs\<lparr>user_input := py ''I eat rice now''\<rparr>"


definition sample_run :: "event list" where
  "sample_run =
     [Submit rice_inputs, Try later_inputs, Finish sheet_missing rice_inputs,
      Submit later_inputs]"

definition blank_try_run :: "event list" where
  "blank_try_run = [Try (rice_inputs\<lparr>user_input := blank\<rparr>)]"

section \<open>Properties of the scorer\<close>

lemma foldl_max_Max: "foldl max x xs = Max (set (x # xs))"
proof (induction xs arbitrary: x)
  case Nil
  show ?case by simp
next
  case (Cons y ys)
  have "foldl max x (y # ys) = Max (set (max x y # ys))"
    using Cons.IH [of "max x y"] by simp
  also have "\<dots> = Max (set (x # y # ys))"
    by (cases "ys = []") (simp_all add: Max_insert max.assoc)
  finally show ?case .
qed

lemma argmax_scan_spec:
  assumes "length pre = i" "bi < i" "pre ! bi = best"
    and "\<forall>j<i. pre ! j \<le> best" and "\<forall>j<bi. pre ! j < best"
  shows "argmax_scan best bi i xs < length (pre @ xs) \<and>
         (\<forall>j<length (pre @ xs). (pre @ xs) ! j \<le> (pre @ xs) ! argmax_scan best bi i xs) \<and>
         (\<forall>j<argmax_scan best bi i xs. (pre @ xs) ! j < (pre @ xs) ! argmax_scan best bi i xs)"
  using assms
proof (induction xs arbitrary: pre best bi i)
  case Nil
  then show ?case by auto
next
  case (Cons x xs)
  show ?case
  proof (cases "best < x")
    case True
    have a: "length (pre @ [x]) = Suc i" using Cons.prems by simp
    have b: "i < Suc i" by simp
    have c: "(pre @ [x]) ! i = x" using Cons.prems by (simp add: nth_append)
    have d: "\<forall>j<Suc i. (pre @ [x]) ! j \<le> x"
      using Cons.prems True by (auto simp: nth_append less_Suc_eq)
    have e: "\<forall>j<i. (pre @ [x]) ! j < x"
      using Cons.prems True by (auto simp: nth_append)
    from Cons.IH [OF a b c d e] True show ?thesis by simp
  next
    case False
    have a: "length (pre @ [x]) = Suc i" using Cons.prems by simp
    have b: "bi < Suc i" using Cons.prems by simp
    have c: "(pre @ [x]) ! bi = best" using Cons.prems by (simp add: nth_append)
    have d: "\<forall>j<Suc i. (pre @ [x]) ! j \<le> best"
      using Cons.prems False by (auto simp: nth_append less_Suc_eq)
    have e: "\<forall>j<bi. (pre @ [x]) ! j < best"
      using Cons.prems by (auto simp: nth_append)
    from Cons.IH [OF a b c d e] False show ?thesis by simp
  qed
qed

lemma tensor_argmax_spec:
  assumes "xs \<noteq> []"
  shows "\<exists>k. tensor_argmax xs = Inr k \<and> k < length xs \<and>
     (\<forall>j<length xs. xs ! j \<le> xs ! k) \<and> (\<forall>j<k. xs ! j < xs ! k)"
proof -
  from assms obtain x ys where xs: "xs = x # ys" by (cases xs) auto
  have "argmax_scan x 0 1 ys < length ([x] @ ys) \<and>
         (\<forall>j<length ([x] @ ys). ([x] @ ys) ! j \<le> ([x] @ ys) ! argmax_scan x 0 1 ys) \<and>
         (\<forall>j<argmax_scan x 0 1 ys. ([x] @ ys) ! j < ([x] @ ys) ! argmax_scan x 0 1 ys)"
    by (rule argmax_scan_spec) auto
  then show ?thesis by (simp add: xs)
qed

lemma tensor_max_spec:
  assumes "xs \<noteq> []"
  shows "tensor_max xs = Inr (Max (set xs))"
proof -
  from assms obtain x ys where xs: "xs = x # ys" by (cases xs) auto
  show ?thesis unfolding xs tensor_max.simps foldl_max_Max ..
qed

lemma Max_at_index:
  fixes xs :: "real list"
  assumes "k < length xs" and "\<forall>j<length xs. xs ! j \<le> xs ! k"
  shows "Max (set xs) = xs ! k"
proof (rule Max_eqI)
  show "finite (set xs)" by simp
  show "xs ! k \<in> set xs" using assms(1) by simp
  fix y assume "y \<in> set xs"
  then obtain j where "j < length xs" "xs ! j = y" by (auto simp: in_set_conv_nth)
  with assms(2) show "y \<le> xs ! k" by auto
qed

lemma compute_score_and_best_spec:
  assumes "variants \<noteq> []"
  shows "\<exists>i. i < length variants \<and>
     compute_score_and_best model c variants =
       Inr (Max (set (map (\<lambda>v. pytorch_cos_sim model (encode model c) (encode model v)) variants)),
            variants ! i) \<and>
     pytorch_cos_sim model (encode model c) (encode model (variants ! i)) =
       Max (set (map (\<lambda>v. pytorch_cos_sim model (encode model c) (encode model v)) variants)) \<and>
     (\<forall>j<i. pytorch_cos_sim model (encode model c) (encode model (variants ! j)) <
        pytorch_cos_sim model (encode model c) (encode model (variants ! i)))"
proof -
  define sims where
    "sims = map (\<lambda>v. pytorch_cos_sim model (encode model c) (encode model v)) variants"
  have ne: "sims \<noteq> []" using assms by (simp add: sims_def)
  from tensor_argmax_spec [OF ne] obtain k where k:
    "tensor_argmax sims = Inr k" "k < length sims"
    "\<forall>j<length sims. sims ! j \<le> sims ! k" "\<forall>j<k. sims ! j < sims ! k"
    by blast
  have mx: "Max (set sims) = sims ! k" using k(2,3) by (rule Max_at_index)
  have len: "length sims = length variants" by (simp add: sims_def)
  have nth: "\<And>j. j < length variants \<Longrightarrow>
      sims ! j = pytorch_cos_sim model (encode model c) (encode model (variants ! j))"
    by (simp add: sims_def)
  have comp: "compute_score_and_best model c variants = Inr (Max (set sims), variants ! k)"
    using k(1) tensor_max_spec [OF ne]
    by (simp add: compute_score_and_best_def sims_def [symmetric] comp_def)
  have lt: "\<forall>j<k. pytorch_cos_sim model (encode model c) (encode model (variants ! j)) <
        pytorch_cos_sim model (encode model c) (encode model (variants ! k))"
    using k(2,4) len nth by auto
  show ?thesis
    apply (rule exI [of _ k])
    using k(2) len comp mx nth [of k] lt unfolding sims_def [symmetric] by simp
qed

lemma all_variants_nonempty: "all_variants e \<noteq> []"
  by (simp add: all_variants_def)

lemma compute_all_variants:
  "\<exists>s v. compute_score_and_best model c (all_variants e) = Inr (s, v)"
  using compute_score_and_best_spec [OF all_variants_nonempty] by blast

section \<open>Properties of the lookup map\<close>

lemma foldl_store_other:
  "\<forall>y\<in>set ys. japanese y \<noteq> k \<Longrightarrow>
   foldl (\<lambda>d e. d(japanese e \<mapsto> e)) d ys k = d k"
  by (induction ys arbitrary: d) auto

lemma japanese_to_entry_last:
  assumes "\<forall>y\<in>set ys. japanese y \<noteq> japanese e"
  shows "japanese_to_entry (xs @ e # ys) (japanese e) = Some e"
proof -
  have "japanese_to_entry (xs @ e # ys) (japanese e) =
      foldl (\<lambda>d e. d(japanese e \<mapsto> e))
        ((foldl (\<lambda>d e. d(japanese e \<mapsto> e)) Map.empty xs)(japanese e \<mapsto> e)) ys (japanese e)"
    by (simp add: japanese_to_entry_def)
  also have "\<dots> = ((foldl (\<lambda>d e. d(japanese e \<mapsto> e)) Map.empty xs)(japanese e \<mapsto> e)) (japanese e)"
    using assms by (rule foldl_store_other)
  also have "\<dots> = Some e" by simp
  finally show ?thesis .
qed

section \<open>Properties of the handlers\<close>

lemma strip_whitespace_only:
  assumes "\<forall>c\<in>set s. isspace c"
  shows "strip s = []"
proof -
  have d: "dropWhile isspace s = []" using assms by (simp add: dropWhile_eq_Nil_conv)
  show ?thesis unfolding strip_def d by simp
qed

lemma strip_Nil: "strip [] = []"
  by (simp add: strip_def)

lemma try_translation_blank:
  "strip (user_input inp) = [] \<Longrightarrow>
   try_translation model inp st = (st, [Warning_enter_translation_try])"
  by (simp add: try_translation_def)

lemma try_translation_scored:
  assumes "strip (user_input inp) \<noteq> []"
  shows "\<exists>s v. compute_score_and_best model (user_input inp) (all_variants (entry inp)) = Inr (s, v) \<and>
     try_translation model inp st =
       (st\<lparr>last_score := Some s, last_variant := Some v,
           attempted_questions := attempted_questions st + 1\<rparr>,
        [Markdown_attempted (attempted_questions st + 1),
         if THRESHOLD \<le> s then Success_good_enough (format_f 2 s)
         else Warning_not_quite (format_f 2 s)])"
proof -
  obtain s v where c:
    "compute_score_and_best model (user_input inp) (all_variants (entry inp)) = Inr (s, v)"
    using compute_all_variants by blast
  show ?thesis using assms c by (simp add: try_translation_def)
qed

lemma submit_translation_rejected:
  "strip (student_name inp) = [] \<or> strip (student_number inp) = [] \<or>
   strip (user_input inp) = [] \<Longrightarrow>
   fst (submit_translation model inp st) = st"
  by (auto simp: submit_translation_def)

lemma submit_translation_cached:
  assumes "strip (student_name inp) \<noteq> []" "strip (student_number inp) \<noteq> []"
    "strip (user_input inp) \<noteq> []" "last_score st = Some cached"
  shows "submit_translation model inp st =
     (st\<lparr>scores := scores st @ [cached], last_score := None, last_variant := None\<rparr>,
      [Success_recorded (format_f 2 cached)])"
  using assms by (simp add: submit_translation_def)

lemma submit_translation_fresh:
  assumes "strip (student_name inp) \<noteq> []" "strip (student_number inp) \<noteq> []"
    "strip (user_input inp) \<noteq> []" "last_score st = None"
  shows "\<exists>s v. compute_score_and_best model (user_input inp) (all_variants (entry inp)) = Inr (s, v) \<and>
     submit_translation model inp st =
     (st\<lparr>scores := scores st @ [s], last_score := None, last_variant := None\<rparr>,
      [Success_recorded (format_f 2 s)])"
proof -
  obtain s v where c:
    "compute_score_and_best model (user_input inp) (all_variants (entry inp)) = Inr (s, v)"
    using compute_all_variants by blast
  show ?thesis using assms c by (simp add: submit_translation_def)
qed

lemma submit_translation_scores:
  "scores (fst (submit_translation model inp st)) = scores st \<or>
   (\<exists>v. scores (fst (submit_translation model inp st)) = scores st @ [v])"
proof (cases "strip (student_name inp) = [] \<or> strip (student_number inp) = [] \<or>
   strip (user_input inp) = []")
  case True
  then show ?thesis by (simp add: submit_translation_rejected)
next
  case False
  show ?thesis
  proof (cases "last_score st")
    case None
    with False submit_translation_fresh [of inp st model] show ?thesis by auto
  next
    case (Some c)
    with False submit_translation_cached [of inp st c model] show ?thesis by auto
  qed
qed

lemma finish_session_rejected:
  "strip (student_name inp) = [] \<or> strip (student_number inp) = [] \<or> scores st = [] \<Longrightarrow>
   fst (finish_session w inp (st, rows)) = (st, rows)"
  by (auto simp: finish_session_def)

lemma finish_session_sink_failure:
  "\<not> sheet_present w \<or> append_raises w \<Longrightarrow>
   fst (finish_session w inp (st, rows)) = (st, rows)"
  by (auto simp: finish_session_def append_row_def Let_def)

lemma finish_session_success:
  assumes "strip (student_name inp) \<noteq> []" "strip (student_number inp) \<noteq> []"
    "scores st \<noteq> []" "sheet_present w" "\<not> append_raises w"
  shows "finish_session w inp (st, rows) =
     ((st\<lparr>scores := [], attempted_questions := 0\<rparr>,
       rows @ [[CellStr (now w), CellStr (student_name inp), CellStr (student_number inp),
                CellStr (format_f 4 (sum_list (scores st) / real (length (scores st)))),
                CellStr (if THRESHOLD \<le> sum_list (scores st) / real (length (scores st))
                         then py ''Pass'' else py ''Fail''),
                CellInt (int (length (scores st)))]]),
      [Success_finished (format_f 2 (sum_list (scores st) / real (length (scores st))))])"
  using assms by (simp add: finish_session_def append_row_def Let_def)

lemma finish_session_cases:
  "(fst (finish_session w inp (st, rows)) = (st, rows)) \<or>
   (strip (student_name inp) \<noteq> [] \<and> strip (student_number inp) \<noteq> [] \<and>
    scores st \<noteq> [] \<and> sheet_present w \<and> \<not> append_raises w)"
  using finish_session_rejected [of inp st w rows] finish_session_sink_failure [of w inp st rows]
  by blast

section \<open>Properties of runs\<close>

lemma is_nonblank_try_simps:
  "is_nonblank_try (Try inp) = (strip (user_input inp) \<noteq> [])"
  "is_nonblank_try (Submit inp) = False"
  "is_nonblank_try (Finish w inp) = False"
  by (simp_all add: is_nonblank_try_def)

lemma appended_values_simps:
  "appended_values model (st, Try inp) = []"
  "appended_values model (st, Finish w inp) = []"
  by (simp_all add: appended_values_def)

lemma step_Try:
  "snd (fst (step model (st, rows) (Try inp))) = rows \<and>
   scores (fst (fst (step model (st, rows) (Try inp)))) = scores st \<and>
   attempted_questions (fst (fst (step model (st, rows) (Try inp)))) =
     attempted_questions st + (if is_nonblank_try (Try inp) then 1 else 0)"
proof (cases "strip (user_input inp) = []")
  case True
  then show ?thesis by (simp add: step_def try_translation_blank is_nonblank_try_simps)
next
  case False
  from try_translation_scored [OF False, of model st] show ?thesis
    using False by (auto simp: step_def is_nonblank_try_simps)
qed

lemma step_Submit:
  "snd (fst (step model (st, rows) (Submit inp))) = rows \<and>
   scores (fst (fst (step model (st, rows) (Submit inp)))) =
     scores st @ appended_values model (st, Submit inp) \<and>
   attempted_questions (fst (fst (step model (st, rows) (Submit inp)))) = attempted_questions st"
proof -
  have a: "attempted_questions (fst (submit_translation model inp st)) = attempted_questions st"
  proof (cases "strip (student_name inp) = [] \<or> strip (student_number inp) = [] \<or>
      strip (user_input inp) = []")
    case True
    then show ?thesis by (simp add: submit_translation_rejected)
  next
    case False
    show ?thesis
    proof (cases "last_score st")
      case None
      with False submit_translation_fresh [of inp st model] show ?thesis by auto
    next
      case (Some c)
      with False submit_translation_cached [of inp st c model] show ?thesis by auto
    qed
  qed
  have s: "scores (fst (submit_translation model inp st)) =
      scores st @ appended_values model (st, Submit inp)"
    using submit_translation_scores [of model inp st]
    by (auto simp: appended_values_def)
  show ?thesis using a s by (simp add: step_def Let_def)
qed

lemma step_Finish:
  "fst (step model (st, rows) (Finish w inp)) = (st, rows) \<or>
   (snd (fst (step model (st, rows) (Finish w inp))) \<noteq> rows \<and>
    scores (fst (fst (step model (st, rows) (Finish w inp)))) = [] \<and>
    attempted_questions (fst (fst (step model (st, rows) (Finish w inp)))) = 0)"
proof (cases "fst (finish_session w inp (st, rows)) = (st, rows)")
  case True
  then show ?thesis by (simp add: step_def)
next
  case False
  with finish_session_cases [of w inp st rows]
  have a: "strip (student_name inp) \<noteq> []" "strip (student_number inp) \<noteq> []"
    "scores st \<noteq> []" "sheet_present w" "\<not> append_raises w"
    by auto
  show ?thesis by (simp add: step_def finish_session_success [OF a])
qed

lemma appended_values_length: "length (appended_values model (st, ev)) \<le> (if is_submit ev then 1 else 0)"
proof (cases ev)
  case (Try inp)
  then show ?thesis by (simp add: appended_values_def is_submit_def)
next
  case (Submit inp)
  with submit_translation_scores [of model inp st] show ?thesis
    by (auto simp: appended_values_def is_submit_def)
next
  case (Finish w inp)
  then show ?thesis by (simp add: appended_values_def is_submit_def)
qed

lemma submitted_values_length:
  "length (submitted_values model hist) \<le> length (filter is_submit (map snd hist))"
proof (induction hist)
  case Nil
  show ?case by (simp add: submitted_values_def)
next
  case (Cons p hist)
  obtain st ev where p: "p = (st, ev)" by (cases p)
  from appended_values_length [of model st ev] Cons.IH show ?case
    by (auto simp: submitted_values_def p)
qed

lemma submitted_values_snoc:
  "submitted_values model (hist @ [p]) = submitted_values model hist @ appended_values model p"
  by (simp add: submitted_values_def)

lemma nonblank_try_is_try: "is_nonblank_try ev \<Longrightarrow> is_try ev"
  by (cases ev) (simp_all add: is_nonblank_try_def is_try_def)

lemma nonblank_tries_le:
  "length (filter is_nonblank_try evs) \<le> length (filter is_try evs)"
  by (induction evs) (auto dest: nonblank_try_is_try)

lemma run_session_invariant:
  assumes "run_session model ((st, rows), hist) evs = ((st', rows'), hist')"
    and "scores st = submitted_values model hist"
    and "attempted_questions st = int (length (filter is_nonblank_try (map snd hist)))"
  shows "scores st' = submitted_values model hist' \<and>
         attempted_questions st' = int (length (filter is_nonblank_try (map snd hist')))"
  using assms
proof (induction evs arbitrary: st rows hist)
  case Nil
  then show ?case by simp
next
  case (Cons ev evs)
  obtain st1 rows1 where a': "fst (step model (st, rows) ev) = (st1, rows1)"
    by (metis surj_pair)
  define hist1 where "hist1 = (if rows1 = rows then hist @ [(st, ev)] else [])"
  have run: "run_session model ((st1, rows1), hist1) evs = ((st', rows'), hist')"
    using Cons.prems(1) by (cases "rows1 = rows") (simp_all add: a' hist1_def)
  have inv: "scores st1 = submitted_values model hist1 \<and>
      attempted_questions st1 = int (length (filter is_nonblank_try (map snd hist1)))"
  proof (cases ev)
    case (Try inp)
    from step_Try [of model st rows inp] Cons.prems(2,3) a' show ?thesis
      by (simp add: hist1_def Try submitted_values_snoc appended_values_simps)
  next
    case (Submit inp)
    from step_Submit [of model st rows inp] Cons.prems(2,3) a' show ?thesis
      by (simp add: hist1_def Submit submitted_values_snoc is_nonblank_try_simps)
  next
    case (Finish w inp)
    from step_Finish [of model st rows w inp] Cons.prems(2,3) a' show ?thesis
      by (auto simp: hist1_def Finish submitted_values_snoc appended_values_simps
          is_nonblank_try_simps submitted_values_def)
  qed
  from Cons.IH [OF run] inv show ?case by simp
qed

lemma run_from_start_invariant:
  "scores (fst (fst (run_from_start model rows0 evs))) =
     submitted_values model (snd (run_from_start model rows0 evs)) \<and>
   attempted_questions (fst (fst (run_from_start model rows0 evs))) =
     int (length (filter is_nonblank_try (map snd (snd (run_from_start model rows0 evs)))))"
proof -
  obtain st' rows' hist' where r:
    "run_session model ((initial_state, rows0), []) evs = ((st', rows'), hist')"
    by (metis surj_pair)
  have "scores st' = submitted_values model hist' \<and>
         attempted_questions st' = int (length (filter is_nonblank_try (map snd hist')))"
    by (rule run_session_invariant [OF r])
       (simp_all add: initial_state_def submitted_values_def)
  then show ?thesis by (simp add: run_from_start_def r)
qed

section \<open>Properties of the formatting\<close>
















lemma rice_inputs_valid:
  "strip (student_name rice_inputs) \<noteq> []" "strip (student_number rice_inputs) \<noteq> []"
  "strip (user_input rice_inputs) \<noteq> []"
  by (simp_all add: rice_inputs_def strip_def isspace_def py_def)

lemma blank_whitespace: "blank \<noteq> []" "\<forall>c\<in>set blank. isspace c" "strip blank = []"
  by (simp_all add: blank_def strip_def isspace_def)

lemma rice_fresh_score:
  "compute_score_and_best length_scorer (user_input rice_inputs) (all_variants (entry rice_inputs))
     = Inr (1, py ''I eat rice'')"
  by (simp add: compute_score_and_best_def length_scorer_def py_def rice_inputs_def
      rice_entry_def all_variants_def)

lemma py_Pass_Fail: "py ''Pass'' \<noteq> py ''Fail''"
  by (simp add: py_def)

lemma three_scores_mean:
  "sum_list (scores three_scores_state) / real (length (scores three_scores_state)) = 7 / 10"
  by (simp add: three_scores_state_def)

lemma later_inputs_valid:
  "strip (student_name later_inputs) \<noteq> []" "strip (student_number later_inputs) \<noteq> []"
  "strip (user_input later_inputs) \<noteq> []"
  by (simp_all add: later_inputs_def rice_inputs_def strip_def isspace_def py_def)

lemma later_score:
  "compute_score_and_best length_scorer (user_input later_inputs) (all_variants (entry later_inputs))
     = Inr (1 / 3, py ''I am eating rice'')"
  by (simp add: compute_score_and_best_def length_scorer_def py_def rice_inputs_def
      later_inputs_def rice_entry_def all_variants_def)

lemma sample_step1:
  "fst (step length_scorer (initial_state, []) (Submit rice_inputs)) =
     (initial_state\<lparr>scores := [1]\<rparr>, [])"
  using submit_translation_fresh [OF rice_inputs_valid, of initial_state length_scorer]
    rice_fresh_score
  by (auto simp: step_def initial_state_def)

lemma sample_step2:
  "fst (step length_scorer (initial_state\<lparr>scores := [1]\<rparr>, []) (Try later_inputs)) =
     (\<lparr>last_score = Some (1 / 3), last_variant = Some (py ''I am eating rice''),
       scores = [1], attempted_questions = 1\<rparr>, [])"
  using try_translation_scored [OF later_inputs_valid(3), of length_scorer "initial_state\<lparr>scores := [1]\<rparr>"]
    later_score
  by (auto simp: step_def initial_state_def)

lemma sample_step3:
  "fst (step length_scorer (st, []) (Finish sheet_missing rice_inputs)) = (st, [])"
  by (simp add: step_def finish_session_sink_failure sheet_missing_def)

lemma sample_step4:
  "fst (step length_scorer
     (\<lparr>last_score = Some (1 / 3), last_variant = Some (py ''I am eating rice''),
       scores = [1], attempted_questions = 1\<rparr>, []) (Submit later_inputs)) =
     (\<lparr>last_score = None, last_variant = None, scores = [1, 1 / 3],
       attempted_questions = 1\<rparr>, [])"
  using submit_translation_cached [OF later_inputs_valid, of
      "\<lparr>last_score = Some (1 / 3), last_variant = Some (py ''I am eating rice''),
        scores = [1], attempted_questions = 1\<rparr>" "1 / 3" length_scorer]
  by (simp add: step_def)

lemma sample_run_result:
  "run_from_start length_scorer [] sample_run =
     ((\<lparr>last_score = None, last_variant = None, scores = [1, 1 / 3],
        attempted_questions = 1\<rparr>, []),
      [(initial_state, Submit rice_inputs),
       (initial_state\<lparr>scores := [1]\<rparr>, Try later_inputs),
       (\<lparr>last_score = Some (1 / 3), last_variant = Some (py ''I am eating rice''),
         scores = [1], attempted_questions = 1\<rparr>, Finish sheet_missing rice_inputs),
       (\<lparr>last_score = Some (1 / 3), last_variant = Some (py ''I am eating rice''),
         scores = [1], attempted_questions = 1\<rparr>, Submit later_inputs)])"
  by (simp add: run_from_start_def sample_run_def sample_step1 sample_step2 sample_step3
      sample_step4)

lemma blank_try_run_result:
  "run_from_start length_scorer [] blank_try_run =
     ((initial_state, []), [(initial_state, Try (rice_inputs\<lparr>user_input := blank\<rparr>))])"
  by (simp add: run_from_start_def blank_try_run_def step_def try_translation_blank
      blank_whitespace)










section \<open>Claims about the scorer\<close>

lemma rice_variants_sims: "map (\<lambda>v. pytorch_cos_sim length_scorer
                 (encode length_scorer (py ''I eat rice'')) (encode length_scorer v))
               rice_variants = [1/7, 1, 1]"
  by (simp add: length_scorer_def py_def rice_variants_def)

text \<open>
  C1: for every candidate string and every non-empty list of variants the scorer returns
  normally; the score it returns is the maximum of the similarities between the
  candidate's embedding and the variants' embeddings, and the variant it returns is the
  element of the list at the first index whose similarity is that maximum.
\<close>

theorem compute_score_and_best_stable_argmax:
  assumes "variants \<noteq> []"
  shows "\<exists>i s. compute_score_and_best model c variants = Inr (s, variants ! i) \<and>
     i < length variants \<and> variants ! i \<in> set variants \<and>
     s = Max (set (map (\<lambda>v. pytorch_cos_sim model (encode model c) (encode model v)) variants)) \<and>
     pytorch_cos_sim model (encode model c) (encode model (variants ! i)) = s \<and>
     (\<forall>j<i. pytorch_cos_sim model (encode model c) (encode model (variants ! j)) < s)"
proof -
  from compute_score_and_best_spec [OF assms, of model c] obtain i where i:
    "i < length variants"
    "compute_score_and_best model c variants =
       Inr (Max (set (map (\<lambda>v. pytorch_cos_sim model (encode model c) (encode model v)) variants)),
            variants ! i)"
    "pytorch_cos_sim model (encode model c) (encode model (variants ! i)) =
       Max (set (map (\<lambda>v. pytorch_cos_sim model (encode model c) (encode model v)) variants))"
    "\<forall>j<i. pytorch_cos_sim model (encode model c) (encode model (variants ! j)) <
        pytorch_cos_sim model (encode model c) (encode model (variants ! i))"
    by blast
  have "variants ! i \<in> set variants" using i(1) by simp
  with i show ?thesis by auto
qed

text \<open>
  At a concrete input with a tie: the second and the third variant are both as similar to
  the candidate as can be, and the theorem forces the second, the first of the two.
\<close>

theorem compute_score_and_best_stable_argmax_witness:
  "rice_variants \<noteq> [] \<and>
   compute_score_and_best length_scorer (py ''I eat rice'') rice_variants
     = Inr (1, py ''I ate rice'')"
proof -
  let ?sim = "\<lambda>v. pytorch_cos_sim length_scorer
                 (encode length_scorer (py ''I eat rice'')) (encode length_scorer v)"
  have h: "rice_variants \<noteq> []" by (simp add: rice_variants_def)
  from compute_score_and_best_stable_argmax [OF h, of length_scorer "py ''I eat rice''"]
  obtain i s where r:
    "compute_score_and_best length_scorer (py ''I eat rice'') rice_variants
       = Inr (s, rice_variants ! i)"
    "i < length rice_variants"
    "s = Max (set (map ?sim rice_variants))"
    "?sim (rice_variants ! i) = s"
    "\<forall>j<i. ?sim (rice_variants ! j) < s"
    by blast
  have s: "s = 1" using r(3) unfolding rice_variants_sims by simp
  have v: "?sim (rice_variants ! 0) = 1 / 7" "?sim (rice_variants ! 1) = 1"
    by (simp_all add: length_scorer_def py_def rice_variants_def)
  have "i < 3" using r(2) by (simp add: rice_variants_def)
  then consider "i = 0" | "i = 1" | "i = 2" by linarith
  then have "i = 1"
  proof cases
    case 1
    with r(4) s v(1) show ?thesis by simp
  next
    case 2
    then show ?thesis .
  next
    case 3
    with r(5) have "?sim (rice_variants ! 1) < s" by simp
    with s v(2) show ?thesis by simp
  qed
  with r(1) s h show ?thesis by (simp add: rice_variants_def)
qed

section \<open>Claims about the handlers\<close>

text \<open>
  C2: when "finish" passes its checks and the spreadsheet takes the row, one row is added
  and afterwards \<open>scores\<close> is empty and \<open>attempted_questions\<close> is 0; a row is added in no
  other case.  When the sheet object is missing or \<open>append_row\<close> raises, the session
  state (so \<open>scores\<close> and \<open>attempted_questions\<close>) and the spreadsheet are what they were.
\<close>

theorem finish_resets_on_success_only:
  "(strip (student_name inp) \<noteq> [] \<and> strip (student_number inp) \<noteq> [] \<and> scores st \<noteq> [] \<and>
    sheet_present w \<and> \<not> append_raises w \<longrightarrow>
      (\<exists>r. snd (fst (finish_session w inp (st, rows))) = rows @ [r]) \<and>
      scores (fst (fst (finish_session w inp (st, rows)))) = [] \<and>
      attempted_questions (fst (fst (finish_session w inp (st, rows)))) = 0) \<and>
   (snd (fst (finish_session w inp (st, rows))) \<noteq> rows \<longrightarrow>
      scores (fst (fst (finish_session w inp (st, rows)))) = [] \<and>
      attempted_questions (fst (fst (finish_session w inp (st, rows)))) = 0) \<and>
   (\<not> sheet_present w \<or> append_raises w \<longrightarrow>
      fst (finish_session w inp (st, rows)) = (st, rows))"
proof (intro conjI impI)
  assume a: "strip (student_name inp) \<noteq> [] \<and> strip (student_number inp) \<noteq> [] \<and>
    scores st \<noteq> [] \<and> sheet_present w \<and> \<not> append_raises w"
  then have f: "fst (finish_session w inp (st, rows)) =
     (st\<lparr>scores := [], attempted_questions := 0\<rparr>,
       rows @ [[CellStr (now w), CellStr (student_name inp), CellStr (student_number inp),
                CellStr (format_f 4 (sum_list (scores st) / real (length (scores st)))),
                CellStr (if THRESHOLD \<le> sum_list (scores st) / real (length (scores st))
                         then py ''Pass'' else py ''Fail''),
                CellInt (int (length (scores st)))]])"
    by (simp add: finish_session_success)
  show "\<exists>r. snd (fst (finish_session w inp (st, rows))) = rows @ [r]"
    unfolding f by simp
  show "scores (fst (fst (finish_session w inp (st, rows)))) = []"
    unfolding f by simp
  show "attempted_questions (fst (fst (finish_session w inp (st, rows)))) = 0"
    unfolding f by simp
next
  assume n: "snd (fst (finish_session w inp (st, rows))) \<noteq> rows"
  with finish_session_cases [of w inp st rows]
  have a: "strip (student_name inp) \<noteq> []" "strip (student_number inp) \<noteq> []"
    "scores st \<noteq> []" "sheet_present w" "\<not> append_raises w"
    by auto
  show "scores (fst (fst (finish_session w inp (st, rows)))) = []"
    by (simp add: finish_session_success [OF a])
  show "attempted_questions (fst (fst (finish_session w inp (st, rows)))) = 0"
    by (simp add: finish_session_success [OF a])
next
  assume "\<not> sheet_present w \<or> append_raises w"
  then show "fst (finish_session w inp (st, rows)) = (st, rows)"
    by (rule finish_session_sink_failure)
qed

theorem finish_resets_on_success_only_witness:
  "strip (student_name rice_inputs) \<noteq> [] \<and> strip (student_number rice_inputs) \<noteq> [] \<and>
   scores three_scores_state \<noteq> [] \<and> sheet_present sheet_ok \<and> \<not> append_raises sheet_ok \<and>
   (\<exists>r. snd (fst (finish_session sheet_ok rice_inputs (three_scores_state, []))) = [] @ [r]) \<and>
   snd (fst (finish_session sheet_ok rice_inputs (three_scores_state, []))) \<noteq> [] \<and>
   scores (fst (fst (finish_session sheet_ok rice_inputs (three_scores_state, [])))) = [] \<and>
   attempted_questions (fst (fst (finish_session sheet_ok rice_inputs (three_scores_state, [])))) = 0 \<and>
   \<not> sheet_present sheet_missing \<and>
   fst (finish_session sheet_missing rice_inputs (three_scores_state, [])) = (three_scores_state, []) \<and>
   append_raises sheet_failing \<and>
   fst (finish_session sheet_failing rice_inputs (three_scores_state, [])) = (three_scores_state, [])"
proof -
  have h1: "strip (student_name rice_inputs) \<noteq> [] \<and> strip (student_number rice_inputs) \<noteq> [] \<and>
    scores three_scores_state \<noteq> [] \<and> sheet_present sheet_ok \<and> \<not> append_raises sheet_ok"
    by (simp add: rice_inputs_valid three_scores_state_def sheet_ok_def)
  have h2: "\<not> sheet_present sheet_missing" by (simp add: sheet_missing_def)
  have h3: "append_raises sheet_failing" by (simp add: sheet_failing_def)
  note t1 = finish_resets_on_success_only [of rice_inputs three_scores_state sheet_ok "[]"]
  note t2 = finish_resets_on_success_only [of rice_inputs three_scores_state sheet_missing "[]"]
  note t3 = finish_resets_on_success_only [of rice_inputs three_scores_state sheet_failing "[]"]
  from t1 h1 have c1:
    "\<exists>r. snd (fst (finish_session sheet_ok rice_inputs (three_scores_state, []))) = [] @ [r]"
    "scores (fst (fst (finish_session sheet_ok rice_inputs (three_scores_state, [])))) = []"
    "attempted_questions (fst (fst (finish_session sheet_ok rice_inputs (three_scores_state, [])))) = 0"
    by blast+
  from c1(1) have c1': "snd (fst (finish_session sheet_ok rice_inputs (three_scores_state, []))) \<noteq> []"
    by auto
  from t2 h2 have c2:
    "fst (finish_session sheet_missing rice_inputs (three_scores_state, [])) = (three_scores_state, [])"
    by blast
  from t3 h3 have c3:
    "fst (finish_session sheet_failing rice_inputs (three_scores_state, [])) = (three_scores_state, [])"
    by blast
  from h1 h2 h3 c1 c1' c2 c3 show ?thesis by blast
qed

text \<open>
  C3: a "try" event leaves \<open>scores\<close> as it was, whatever its input; a "submit" event with
  non-blank name, number and translation leaves \<open>scores\<close> as the old list followed by
  exactly one value.
\<close>

theorem try_keeps_scores_submit_appends_one:
  "scores (fst (fst (step model (st, rows) (Try inp)))) = scores st \<and>
   (strip (student_name inp) \<noteq> [] \<and> strip (student_number inp) \<noteq> [] \<and>
    strip (user_input inp) \<noteq> [] \<longrightarrow>
      (\<exists>v. scores (fst (fst (step model (st, rows) (Submit inp)))) = scores st @ [v]))"
proof (intro conjI impI)
  show "scores (fst (fst (step model (st, rows) (Try inp)))) = scores st"
  proof (cases "strip (user_input inp) = []")
    case True
    then show ?thesis by (simp add: step_def try_translation_blank)
  next
    case False
    from try_translation_scored [OF False, of model st] show ?thesis
      by (auto simp: step_def)
  qed
next
  assume a: "strip (student_name inp) \<noteq> [] \<and> strip (student_number inp) \<noteq> [] \<and>
    strip (user_input inp) \<noteq> []"
  show "\<exists>v. scores (fst (fst (step model (st, rows) (Submit inp)))) = scores st @ [v]"
  proof (cases "last_score st")
    case None
    with a submit_translation_fresh [of inp st model] show ?thesis
      by (auto simp: step_def)
  next
    case (Some c)
    with a submit_translation_cached [of inp st c model] show ?thesis
      by (auto simp: step_def)
  qed
qed

theorem try_keeps_scores_submit_appends_one_witness:
  "scores (fst (fst (step length_scorer (cached_state, []) (Try rice_inputs)))) = [1 / 2] \<and>
   strip (student_name rice_inputs) \<noteq> [] \<and> strip (student_number rice_inputs) \<noteq> [] \<and>
   strip (user_input rice_inputs) \<noteq> [] \<and>
   (\<exists>v. scores (fst (fst (step length_scorer (cached_state, []) (Submit rice_inputs)))) = [1 / 2] @ [v])"
proof -
  have s: "scores cached_state = [1 / 2]" by (simp add: cached_state_def)
  show ?thesis
    using try_keeps_scores_submit_appends_one [of length_scorer cached_state "[]" rice_inputs]
      rice_inputs_valid
    unfolding s by blast
qed

text \<open>
  C7: a "try" with blank translation, a "submit" with blank name, number or translation,
  and a "finish" with blank name or number or with no recorded score leave the session
  state and the spreadsheet unchanged, and so the machine in the state (\<open>Idle\<close> or
  \<open>Scored\<close>) it was in.
\<close>

theorem validation_failure_changes_nothing:
  "(strip (user_input inp) = [] \<longrightarrow>
      fst (step model (st, rows) (Try inp)) = (st, rows) \<and>
      phase_of (fst (fst (step model (st, rows) (Try inp)))) = phase_of st) \<and>
   (strip (student_name inp) = [] \<or> strip (student_number inp) = [] \<or>
    strip (user_input inp) = [] \<longrightarrow>
      fst (step model (st, rows) (Submit inp)) = (st, rows) \<and>
      phase_of (fst (fst (step model (st, rows) (Submit inp)))) = phase_of st) \<and>
   (strip (student_name inp) = [] \<or> strip (student_number inp) = [] \<or> scores st = [] \<longrightarrow>
      fst (step model (st, rows) (Finish w inp)) = (st, rows) \<and>
      phase_of (fst (fst (step model (st, rows) (Finish w inp)))) = phase_of st)"
proof (intro conjI impI)
  assume b: "strip (user_input inp) = []"
  then show "fst (step model (st, rows) (Try inp)) = (st, rows)"
    by (simp add: step_def try_translation_blank)
  then show "phase_of (fst (fst (step model (st, rows) (Try inp)))) = phase_of st"
    by simp
next
  assume b: "strip (student_name inp) = [] \<or> strip (student_number inp) = [] \<or>
    strip (user_input inp) = []"
  then show "fst (step model (st, rows) (Submit inp)) = (st, rows)"
    by (simp add: step_def submit_translation_rejected)
  then show "phase_of (fst (fst (step model (st, rows) (Submit inp)))) = phase_of st"
    by simp
next
  assume b: "strip (student_name inp) = [] \<or> strip (student_number inp) = [] \<or> scores st = []"
  then show "fst (step model (st, rows) (Finish w inp)) = (st, rows)"
    by (simp add: step_def finish_session_rejected)
  then show "phase_of (fst (fst (step model (st, rows) (Finish w inp)))) = phase_of st"
    by simp
qed

theorem validation_failure_changes_nothing_witness:
  "strip (user_input (rice_inputs\<lparr>user_input := blank\<rparr>)) = [] \<and>
   fst (step length_scorer (cached_state, []) (Try (rice_inputs\<lparr>user_input := blank\<rparr>)))
     = (cached_state, []) \<and>
   fst (step length_scorer (cached_state, []) (Submit (rice_inputs\<lparr>user_input := blank\<rparr>)))
     = (cached_state, []) \<and>
   strip (student_name (rice_inputs\<lparr>student_name := []\<rparr>)) = [] \<and>
   fst (step length_scorer (cached_state, []) (Submit (rice_inputs\<lparr>student_name := []\<rparr>)))
     = (cached_state, []) \<and>
   fst (step length_scorer (cached_state, []) (Finish sheet_ok (rice_inputs\<lparr>student_name := []\<rparr>)))
     = (cached_state, []) \<and>
   scores initial_state = [] \<and>
   fst (step length_scorer (initial_state, []) (Finish sheet_ok rice_inputs)) = (initial_state, []) \<and>
   phase_of (fst (fst (step length_scorer (cached_state, [])
      (Try (rice_inputs\<lparr>user_input := blank\<rparr>))))) = Scored"
proof -
  have h1: "strip (user_input (rice_inputs\<lparr>user_input := blank\<rparr>)) = []"
    by (simp add: blank_whitespace)
  have h2: "strip (student_name (rice_inputs\<lparr>student_name := []\<rparr>)) = []"
    by (simp add: strip_Nil)
  have h3: "scores initial_state = []" by (simp add: initial_state_def)
  have p: "phase_of cached_state = Scored" by (simp add: phase_of_def cached_state_def)
  note t1 = validation_failure_changes_nothing
    [of "rice_inputs\<lparr>user_input := blank\<rparr>" length_scorer cached_state "[]" sheet_ok]
  note t2 = validation_failure_changes_nothing
    [of "rice_inputs\<lparr>student_name := []\<rparr>" length_scorer cached_state "[]" sheet_ok]
  note t3 = validation_failure_changes_nothing
    [of rice_inputs length_scorer initial_state "[]" sheet_ok]
  from t1 h1 p have c1:
    "fst (step length_scorer (cached_state, []) (Try (rice_inputs\<lparr>user_input := blank\<rparr>)))
       = (cached_state, [])"
    "fst (step length_scorer (cached_state, []) (Submit (rice_inputs\<lparr>user_input := blank\<rparr>)))
       = (cached_state, [])"
    "phase_of (fst (fst (step length_scorer (cached_state, [])
      (Try (rice_inputs\<lparr>user_input := blank\<rparr>))))) = Scored"
    by simp_all
  from t2 h2 have c2:
    "fst (step length_scorer (cached_state, []) (Submit (rice_inputs\<lparr>student_name := []\<rparr>)))
       = (cached_state, [])"
    "fst (step length_scorer (cached_state, []) (Finish sheet_ok (rice_inputs\<lparr>student_name := []\<rparr>)))
       = (cached_state, [])"
    by simp_all
  from t3 h3 have c3:
    "fst (step length_scorer (initial_state, []) (Finish sheet_ok rice_inputs)) = (initial_state, [])"
    by simp
  from h1 h2 h3 c1 c2 c3 show ?thesis by blast
qed

text \<open>
  C8: a "submit" with non-blank name, number and translation appends the cached
  \<open>last_score\<close> when there is one (the result mentions neither the scorer nor the
  inputs), and otherwise the score computed from the current translation and the entry's
  variants; in both cases \<open>last_score\<close> and \<open>last_variant\<close> are \<open>None\<close> afterwards, so the
  machine is \<open>Idle\<close>.
\<close>

theorem submit_consumes_cache_or_computes:
  assumes "strip (student_name inp) \<noteq> []" "strip (student_number inp) \<noteq> []"
    "strip (user_input inp) \<noteq> []"
  shows "(\<forall>cached. last_score st = Some cached \<longrightarrow>
            fst (submit_translation model inp st) =
              st\<lparr>scores := scores st @ [cached], last_score := None, last_variant := None\<rparr>) \<and>
         (last_score st = None \<longrightarrow>
            (\<exists>s v. compute_score_and_best model (user_input inp) (all_variants (entry inp))
                     = Inr (s, v) \<and>
                   fst (submit_translation model inp st) =
                     st\<lparr>scores := scores st @ [s], last_score := None, last_variant := None\<rparr>)) \<and>
         phase_of (fst (submit_translation model inp st)) = Idle"
proof (intro conjI allI impI)
  fix cached assume "last_score st = Some cached"
  then show "fst (submit_translation model inp st) =
      st\<lparr>scores := scores st @ [cached], last_score := None, last_variant := None\<rparr>"
    by (simp add: submit_translation_cached [OF assms])
next
  assume n: "last_score st = None"
  from submit_translation_fresh [OF assms n, of model]
  show "\<exists>s v. compute_score_and_best model (user_input inp) (all_variants (entry inp))
                     = Inr (s, v) \<and>
            fst (submit_translation model inp st) =
              st\<lparr>scores := scores st @ [s], last_score := None, last_variant := None\<rparr>"
    by auto
next
  show "phase_of (fst (submit_translation model inp st)) = Idle"
  proof (cases "last_score st")
    case None
    from submit_translation_fresh [OF assms None, of model] show ?thesis
      by (auto simp: phase_of_def)
  next
    case (Some c)
    then show ?thesis by (simp add: submit_translation_cached [OF assms] phase_of_def)
  qed
qed

theorem submit_consumes_cache_or_computes_witness:
  "strip (student_name rice_inputs) \<noteq> [] \<and> strip (student_number rice_inputs) \<noteq> [] \<and>
   strip (user_input rice_inputs) \<noteq> [] \<and>
   last_score cached_state = Some (1 / 4) \<and>
   fst (submit_translation length_scorer rice_inputs cached_state) =
     cached_state\<lparr>scores := scores cached_state @ [1 / 4], last_score := None,
       last_variant := None\<rparr> \<and>
   last_score initial_state = None \<and>
   fst (submit_translation length_scorer rice_inputs initial_state) =
     initial_state\<lparr>scores := scores initial_state @ [1], last_score := None,
       last_variant := None\<rparr> \<and>
   phase_of (fst (submit_translation length_scorer rice_inputs cached_state)) = Idle"
proof -
  have h1: "last_score cached_state = Some (1 / 4)" by (simp add: cached_state_def)
  have h2: "last_score initial_state = None" by (simp add: initial_state_def)
  note t1 = submit_consumes_cache_or_computes [OF rice_inputs_valid, of cached_state length_scorer]
  note t2 = submit_consumes_cache_or_computes [OF rice_inputs_valid, of initial_state length_scorer]
  from t1 h1 have c1:
    "fst (submit_translation length_scorer rice_inputs cached_state) =
     cached_state\<lparr>scores := scores cached_state @ [1 / 4], last_score := None,
       last_variant := None\<rparr>"
    "phase_of (fst (submit_translation length_scorer rice_inputs cached_state)) = Idle"
    by blast+
  from t2 h2 rice_fresh_score have c2:
    "fst (submit_translation length_scorer rice_inputs initial_state) =
     initial_state\<lparr>scores := scores initial_state @ [1], last_score := None,
       last_variant := None\<rparr>"
    by auto
  from rice_inputs_valid h1 h2 c1 c2 show ?thesis by blast
qed

text \<open>
  C9: a non-empty string of whitespace only counts as empty.  As the translation it makes
  "try" and "submit" stop with a warning; as the name or the number it makes "submit" and
  "finish" stop with a warning; state and spreadsheet are unchanged.
\<close>

theorem whitespace_only_input_rejected:
  assumes "s \<noteq> []" and "\<forall>c\<in>set s. isspace c"
  shows "(user_input inp = s \<longrightarrow>
            step model (st, rows) (Try inp) = ((st, rows), [Warning_enter_translation_try]) \<and>
            fst (step model (st, rows) (Submit inp)) = (st, rows) \<and>
            snd (step model (st, rows) (Submit inp)) \<in>
              {[Warning_enter_identity_submit], [Warning_enter_translation_submit]}) \<and>
         (student_name inp = s \<or> student_number inp = s \<longrightarrow>
            step model (st, rows) (Submit inp) = ((st, rows), [Warning_enter_identity_submit]) \<and>
            step model (st, rows) (Finish w inp) = ((st, rows), [Warning_enter_identity_finish]))"
proof -
  have e: "strip s = []" using assms(2) by (rule strip_whitespace_only)
  show ?thesis
    using e by (auto simp: step_def try_translation_def submit_translation_def finish_session_def)
qed

theorem whitespace_only_input_rejected_witness:
  "blank \<noteq> [] \<and> list_all isspace blank \<and>
   step length_scorer (cached_state, []) (Try (rice_inputs\<lparr>user_input := blank\<rparr>))
     = ((cached_state, []), [Warning_enter_translation_try]) \<and>
   fst (step length_scorer (cached_state, []) (Submit (rice_inputs\<lparr>user_input := blank\<rparr>)))
     = (cached_state, []) \<and>
   step length_scorer (cached_state, []) (Submit (rice_inputs\<lparr>student_number := blank\<rparr>))
     = ((cached_state, []), [Warning_enter_identity_submit]) \<and>
   step length_scorer (cached_state, []) (Finish sheet_ok (rice_inputs\<lparr>student_name := blank\<rparr>))
     = ((cached_state, []), [Warning_enter_identity_finish])"
proof -
  have a: "list_all isspace blank" using blank_whitespace(2) by (simp add: list_all_iff)
  note t = whitespace_only_input_rejected [OF blank_whitespace(1,2)]
  from t [of "rice_inputs\<lparr>user_input := blank\<rparr>" length_scorer cached_state "[]" sheet_ok]
  have c1:
    "step length_scorer (cached_state, []) (Try (rice_inputs\<lparr>user_input := blank\<rparr>))
       = ((cached_state, []), [Warning_enter_translation_try])"
    "fst (step length_scorer (cached_state, []) (Submit (rice_inputs\<lparr>user_input := blank\<rparr>)))
       = (cached_state, [])"
    by simp_all
  from t [of "rice_inputs\<lparr>student_number := blank\<rparr>" length_scorer cached_state "[]" sheet_ok]
  have c2:
    "step length_scorer (cached_state, []) (Submit (rice_inputs\<lparr>student_number := blank\<rparr>))
       = ((cached_state, []), [Warning_enter_identity_submit])"
    by simp
  from t [of "rice_inputs\<lparr>student_name := blank\<rparr>" length_scorer cached_state "[]" sheet_ok]
  have c3:
    "step length_scorer (cached_state, []) (Finish sheet_ok (rice_inputs\<lparr>student_name := blank\<rparr>))
       = ((cached_state, []), [Warning_enter_identity_finish])"
    by simp
  from blank_whitespace(1) a c1 c2 c3 show ?thesis by blast
qed

text \<open>
  C5: both labels compare with the one constant \<open>THRESHOLD\<close>, which is 0.80.  A "try"
  with a non-blank translation shows the "good enough" message if the best score is at
  least 0.80 and the "not quite" message otherwise; a "finish" that adds a row writes
  \<open>Pass\<close> in the fifth cell if the mean of \<open>scores\<close> is at least 0.80 and \<open>Fail\<close> otherwise.
\<close>

theorem threshold_labels:
  "THRESHOLD = 0.80 \<and>
   (strip (user_input inp) \<noteq> [] \<longrightarrow>
      (\<exists>s v. compute_score_and_best model (user_input inp) (all_variants (entry inp)) = Inr (s, v) \<and>
             last (snd (try_translation model inp st)) =
               (if 0.80 \<le> s then Success_good_enough (format_f 2 s)
                else Warning_not_quite (format_f 2 s)))) \<and>
   (strip (student_name inp) \<noteq> [] \<and> strip (student_number inp) \<noteq> [] \<and> scores st \<noteq> [] \<and>
    sheet_present w \<and> \<not> append_raises w \<longrightarrow>
      (\<exists>r. snd (fst (finish_session w inp (st, rows))) = rows @ [r] \<and> length r = 6 \<and>
           r ! 4 = CellStr (if 0.80 \<le> sum_list (scores st) / real (length (scores st))
                            then py ''Pass'' else py ''Fail''))) \<and>
   py ''Pass'' \<noteq> py ''Fail''"
proof (intro conjI impI)
  show "THRESHOLD = 0.80" by (simp add: THRESHOLD_def)
next
  assume a: "strip (user_input inp) \<noteq> []"
  from try_translation_scored [OF a, of model st]
  show "\<exists>s v. compute_score_and_best model (user_input inp) (all_variants (entry inp)) = Inr (s, v) \<and>
             last (snd (try_translation model inp st)) =
               (if 0.80 \<le> s then Success_good_enough (format_f 2 s)
                else Warning_not_quite (format_f 2 s))"
    by (auto simp: THRESHOLD_def)
next
  assume a: "strip (student_name inp) \<noteq> [] \<and> strip (student_number inp) \<noteq> [] \<and>
    scores st \<noteq> [] \<and> sheet_present w \<and> \<not> append_raises w"
  then show "\<exists>r. snd (fst (finish_session w inp (st, rows))) = rows @ [r] \<and> length r = 6 \<and>
           r ! 4 = CellStr (if 0.80 \<le> sum_list (scores st) / real (length (scores st))
                            then py ''Pass'' else py ''Fail'')"
    by (simp add: finish_session_success THRESHOLD_def)
next
  show "py ''Pass'' \<noteq> py ''Fail''" by (rule py_Pass_Fail)
qed

theorem threshold_labels_witness:
  "strip (user_input rice_inputs) \<noteq> [] \<and>
   last (snd (try_translation length_scorer rice_inputs initial_state)) =
     Success_good_enough (format_f 2 1) \<and>
   strip (student_name rice_inputs) \<noteq> [] \<and> strip (student_number rice_inputs) \<noteq> [] \<and>
   scores three_scores_state \<noteq> [] \<and> sheet_present sheet_ok \<and> \<not> append_raises sheet_ok \<and>
   (\<exists>r. snd (fst (finish_session sheet_ok rice_inputs (three_scores_state, []))) = [r] \<and>
        r ! 4 = CellStr (py ''Fail''))"
proof -
  have h: "scores three_scores_state \<noteq> [] \<and> sheet_present sheet_ok \<and> \<not> append_raises sheet_ok"
    by (simp add: three_scores_state_def sheet_ok_def)
  note t1 = threshold_labels
    [where inp = rice_inputs and model = length_scorer and st = initial_state]
  note t2 = threshold_labels
    [where inp = rice_inputs and st = three_scores_state and w = sheet_ok and rows = "[]"]
  have c1: "last (snd (try_translation length_scorer rice_inputs initial_state)) =
     Success_good_enough (format_f 2 1)"
    using t1 rice_inputs_valid(3) rice_fresh_score by auto
  have c2: "\<exists>r. snd (fst (finish_session sheet_ok rice_inputs (three_scores_state, []))) = [r] \<and>
        r ! 4 = CellStr (py ''Fail'')"
    using t2 rice_inputs_valid(1,2) h unfolding three_scores_mean by auto
  from rice_inputs_valid h c1 c2 show ?thesis by blast
qed

section \<open>Claims about the reference data\<close>

text \<open>
  C10: when several entries of the list have the same \<open>japanese\<close> key, the map built at
  load time holds, under that key, the entry that comes last in the list: an entry that no
  later entry shares its key with is the one the lookup returns, whatever came before.
\<close>

theorem japanese_to_entry_last_write_wins:
  assumes "\<forall>y\<in>set ys. japanese y \<noteq> japanese e"
  shows "japanese_to_entry (xs @ e # ys) (japanese e) = Some e"
  using assms by (rule japanese_to_entry_last)

theorem japanese_to_entry_last_write_wins_witness:
  "japanese rice_entry_old = japanese rice_entry \<and> rice_entry_old \<noteq> rice_entry \<and>
   list_all (\<lambda>y. japanese y \<noteq> japanese rice_entry) [tea_entry] \<and>
   japanese_to_entry ([rice_entry_old] @ rice_entry # [tea_entry]) (japanese rice_entry)
     = Some rice_entry"
proof -
  have k: "japanese rice_entry_old = japanese rice_entry"
    by (simp add: rice_entry_old_def rice_entry_def)
  have d: "rice_entry_old \<noteq> rice_entry"
    by (simp add: rice_entry_old_def rice_entry_def)
  have h: "\<forall>y\<in>set [tea_entry]. japanese y \<noteq> japanese rice_entry"
    by (simp add: tea_entry_def rice_entry_def)
  have a: "list_all (\<lambda>y. japanese y \<noteq> japanese rice_entry) [tea_entry]"
    using h by (simp add: list_all_iff)
  from k d a japanese_to_entry_last_write_wins [OF h, of "[rice_entry_old]"]
  show ?thesis by blast
qed

section \<open>Claims about whole sessions\<close>



text \<open>
  C6, amended: in every state a new session can reach, the length of \<open>scores\<close> is at most
  the number of "submit" events of the current session; \<open>attempted_questions\<close> equals the
  number of its "try" events with a non-blank translation, so it is at most the number of
  its "try" events; and some reachable state has a length of \<open>scores\<close> that differs from
  \<open>attempted_questions\<close>.
\<close>

theorem scores_and_attempts_bounded_by_events:
  "length (scores (fst (fst (run_from_start model rows0 evs)))) \<le>
     length (filter is_submit (map snd (snd (run_from_start model rows0 evs)))) \<and>
   attempted_questions (fst (fst (run_from_start model rows0 evs))) =
     int (length (filter is_nonblank_try (map snd (snd (run_from_start model rows0 evs))))) \<and>
   attempted_questions (fst (fst (run_from_start model rows0 evs))) \<le>
     int (length (filter is_try (map snd (snd (run_from_start model rows0 evs))))) \<and>
   (\<exists>evs'. int (length (scores (fst (fst (run_from_start model rows0 evs'))))) \<noteq>
            attempted_questions (fst (fst (run_from_start model rows0 evs'))))"
proof -
  note inv = run_from_start_invariant [of model rows0 evs]
  have 1: "length (scores (fst (fst (run_from_start model rows0 evs)))) \<le>
     length (filter is_submit (map snd (snd (run_from_start model rows0 evs))))"
    using inv submitted_values_length [of model "snd (run_from_start model rows0 evs)"] by simp
  have 2: "attempted_questions (fst (fst (run_from_start model rows0 evs))) =
     int (length (filter is_nonblank_try (map snd (snd (run_from_start model rows0 evs)))))"
    using inv by simp
  have 3: "attempted_questions (fst (fst (run_from_start model rows0 evs))) \<le>
     int (length (filter is_try (map snd (snd (run_from_start model rows0 evs)))))"
    unfolding 2 by (simp only: of_nat_le_iff nonblank_tries_le)
  obtain s v where c:
    "compute_score_and_best model (user_input rice_inputs) (all_variants (entry rice_inputs))
       = Inr (s, v)"
    using compute_all_variants by blast
  have "fst (fst (run_from_start model rows0 [Submit rice_inputs])) =
      initial_state\<lparr>scores := [s]\<rparr>"
    using submit_translation_fresh [OF rice_inputs_valid, of initial_state model] c
    by (auto simp: run_from_start_def step_def initial_state_def Let_def)
  then have "int (length (scores (fst (fst (run_from_start model rows0 [Submit rice_inputs]))))) \<noteq>
            attempted_questions (fst (fst (run_from_start model rows0 [Submit rice_inputs])))"
    by (simp add: initial_state_def)
  then have 4: "\<exists>evs'. int (length (scores (fst (fst (run_from_start model rows0 evs'))))) \<noteq>
            attempted_questions (fst (fst (run_from_start model rows0 evs')))"
    by blast
  from 1 2 3 4 show ?thesis by blast
qed

theorem scores_and_attempts_bounded_by_events_witness:
  "length (scores (fst (fst (run_from_start length_scorer [] sample_run)))) = 2 \<and>
   length (filter is_submit (map snd (snd (run_from_start length_scorer [] sample_run)))) = 2 \<and>
   attempted_questions (fst (fst (run_from_start length_scorer [] sample_run))) = 1 \<and>
   length (filter is_nonblank_try (map snd (snd (run_from_start length_scorer [] sample_run)))) = 1 \<and>
   length (filter is_try (map snd (snd (run_from_start length_scorer [] sample_run)))) = 1"
proof -
  have h: "map snd (snd (run_from_start length_scorer [] sample_run)) = sample_run"
    unfolding sample_run_result by (simp add: sample_run_def)
  have s: "length (filter is_submit sample_run) = 2"
    by (simp add: sample_run_def is_submit_def)
  have t: "length (filter is_try sample_run) = 1"
    by (simp add: sample_run_def is_try_def)
  have l: "length (scores (fst (fst (run_from_start length_scorer [] sample_run)))) = 2"
    by (simp add: sample_run_result)
  from scores_and_attempts_bounded_by_events [of length_scorer "[]" sample_run]
  have b: "attempted_questions (fst (fst (run_from_start length_scorer [] sample_run))) =
      int (length (filter is_nonblank_try sample_run))"
    "attempted_questions (fst (fst (run_from_start length_scorer [] sample_run))) \<le> 1"
    unfolding h t by simp_all
  have a: "attempted_questions (fst (fst (run_from_start length_scorer [] sample_run))) = 1"
    by (simp add: sample_run_result)
  from a b(1) have n: "length (filter is_nonblank_try sample_run) = 1" by simp
  from l s a n t show ?thesis unfolding h by simp
qed

text \<open>
  C6, as stated, fails: \<open>attempted_questions\<close> need not equal the number of "try" events
  of the session, since a "try" with a blank translation is an event that counts nothing.
\<close>

theorem attempted_equals_try_events_counterexample:
  "attempted_questions (fst (fst (run_from_start length_scorer [] blank_try_run))) \<noteq>
   int (length (filter is_try (map snd (snd (run_from_start length_scorer [] blank_try_run)))))"
  by (simp add: blank_try_run_result initial_state_def is_try_def)

end
